theory Spec2Isabelle
  imports Complex_Main "HOL-Library.Word" "HOL-Library.Signed_Division"
begin

unbundle bit_operations_syntax

section \<open>Machine types\<close>

text \<open>
  The client (\<^verbatim>\<open>src/client/c/driftsync.c\<close>) is modelled for an LP64 target:
  \<^verbatim>\<open>int64_t\<close>, \<^verbatim>\<open>uint64_t\<close> and \<^verbatim>\<open>size_t\<close> are 64-bit words, \<^verbatim>\<open>int\<close> is a
  32-bit word. Addition, subtraction and negation on words wrap around; \<open>div\<close> and
  \<open>mod\<close> on words are the unsigned operations of C; signed comparison is \<open><s\<close>.
\<close>

type_synonym int64_t = "64 word"
type_synonym uint64_t = "64 word"
type_synonym size_t = "64 word"
type_synonym int_t = "32 word"

text \<open>Signed C division and remainder (truncation towards zero) on words.\<close>

definition sdiv_w :: "'a::len word \<Rightarrow> 'a word \<Rightarrow> 'a word" where
  "sdiv_w a b = word_of_int (sint a sdiv sint b)"

definition smod_w :: "'a::len word \<Rightarrow> 'a word \<Rightarrow> 'a word" where
  "smod_w a b = word_of_int (sint a smod sint b)"

subsection \<open>Doubles\<close>

text \<open>
  A \<^verbatim>\<open>double\<close> is modelled by its exact rational value or by one of the three
  special values of IEEE 754. The special values follow the IEEE rules (a \<open>NaN\<close>
  operand gives \<open>NaN\<close>, every comparison with \<open>NaN\<close> is false, \<open>x / 0\<close> is an
  infinity or \<open>NaN\<close>). Rounding of finite results, overflow of finite results to an
  infinity and the sign of zero are not modelled.
\<close>

datatype double = Finite rat | PosInf | NegInf | NaN


fun dadd :: "double \<Rightarrow> double \<Rightarrow> double" where
  "dadd NaN _ = NaN"
| "dadd _ NaN = NaN"
| "dadd (Finite a) (Finite b) = Finite (a + b)"
| "dadd PosInf NegInf = NaN"
| "dadd NegInf PosInf = NaN"
| "dadd PosInf _ = PosInf"
| "dadd _ PosInf = PosInf"
| "dadd NegInf _ = NegInf"
| "dadd _ NegInf = NegInf"


fun dmul :: "double \<Rightarrow> double \<Rightarrow> double" where
  "dmul NaN _ = NaN"
| "dmul _ NaN = NaN"
| "dmul (Finite a) (Finite b) = Finite (a * b)"
| "dmul (Finite a) PosInf = (if a = 0 then NaN else if 0 < a then PosInf else NegInf)"
| "dmul (Finite a) NegInf = (if a = 0 then NaN else if 0 < a then NegInf else PosInf)"
| "dmul PosInf (Finite b) = (if b = 0 then NaN else if 0 < b then PosInf else NegInf)"
| "dmul NegInf (Finite b) = (if b = 0 then NaN else if 0 < b then NegInf else PosInf)"
| "dmul PosInf PosInf = PosInf"
| "dmul NegInf NegInf = PosInf"
| "dmul PosInf NegInf = NegInf"
| "dmul NegInf PosInf = NegInf"

fun ddiv :: "double \<Rightarrow> double \<Rightarrow> double" where
  "ddiv NaN _ = NaN"
| "ddiv _ NaN = NaN"
| "ddiv (Finite a) (Finite b) =
     (if b = 0 then (if a = 0 then NaN else if 0 < a then PosInf else NegInf)
      else Finite (a / b))"
| "ddiv (Finite a) PosInf = Finite 0"
| "ddiv (Finite a) NegInf = Finite 0"
| "ddiv PosInf (Finite b) = (if b < 0 then NegInf else PosInf)"
| "ddiv NegInf (Finite b) = (if b < 0 then PosInf else NegInf)"
| "ddiv _ _ = NaN"

fun dless :: "double \<Rightarrow> double \<Rightarrow> bool" where
  "dless NaN _ = False"
| "dless _ NaN = False"
| "dless (Finite a) (Finite b) = (a < b)"
| "dless NegInf NegInf = False"
| "dless NegInf _ = True"
| "dless _ NegInf = False"
| "dless PosInf _ = False"
| "dless _ PosInf = True"

text \<open>Conversion of a signed 64-bit integer to \<^verbatim>\<open>double\<close>.\<close>

definition double_of_int64 :: "int64_t \<Rightarrow> double" where
  "double_of_int64 x = Finite (of_int (sint x))"

text \<open>
  The cast \<^verbatim>\<open>(int64_t)d\<close> truncates towards zero. It is undefined in C when \<open>d\<close> is
  not finite or when the truncated value does not fit: that is the value \<open>None\<close>.
\<close>

definition trunc_rat :: "rat \<Rightarrow> int" where
  "trunc_rat r = (if 0 \<le> r then \<lfloor>r\<rfloor> else - \<lfloor>- r\<rfloor>)"

fun int64_of_double :: "double \<Rightarrow> int64_t option" where
  "int64_of_double (Finite r) =
     (let t = trunc_rat r
      in if - (2 ^ 63) \<le> t \<and> t < 2 ^ 63 then Some (word_of_int t) else None)"
| "int64_of_double _ = None"

section \<open>Data\<close>

record sample =
  local :: int64_t
  remote :: int64_t

record statistics =
  sentRequests :: int_t
  receivedSamples :: int_t
  rejectedSamples :: int_t

record accuracy =
  min_acc :: double
  average :: double
  max_acc :: double

text \<open>
  \<^verbatim>\<open>struct ring_buffer\<close>: the storage is the list \<open>buffer\<close> of \<open>size_rb\<close> slots,
  addressed by physical index. The byte size of an element is the element type here.
\<close>

record 'a ring_buffer =
  buffer :: "'a list"
  size_rb :: size_t
  count :: size_t
  position :: size_t

text \<open>\<^verbatim>\<open>struct driftsync_packet\<close> (\<^verbatim>\<open>src/include/driftsync.h\<close>).\<close>

record driftsync_packet =
  magic :: "32 word"
  flags :: "32 word"
  local_pkt :: uint64_t
  remote_pkt :: uint64_t
  reserved :: uint64_t

definition DRIFTSYNC_MAGIC :: "32 word" where
  "DRIFTSYNC_MAGIC = 0x74667264"

definition DRIFTSYNC_FLAG_REPLY :: "32 word" where
  "DRIFTSYNC_FLAG_REPLY = 1"

text \<open>
  \<^verbatim>\<open>struct DRIFTsync\<close> without the lock, the condition variable, the socket and
  the server address.
\<close>

record DRIFTsync =
  maxSamples :: size_t
  roundTripTimes :: "int64_t ring_buffer"
  sortedRoundTripTimes :: "int64_t ring_buffer"
  samples :: "sample ring_buffer"
  clockRate :: double
  offsets :: "int64_t ring_buffer"
  averageOffset :: int64_t
  accuracySamples :: "int64_t ring_buffer"
  statistics :: statistics
  interval :: int_t
  scale :: double
  measureAccuracy :: int_t

datatype error = AssertionFailed | UndefinedConversion

section \<open>Ring history\<close>

text \<open>\<^verbatim>\<open>ring_buffer_init\<close>: \<^verbatim>\<open>calloc\<close> fills the storage with the zero element \<open>z\<close>.\<close>

definition ring_buffer_init :: "'a \<Rightarrow> size_t \<Rightarrow> 'a ring_buffer" where
  "ring_buffer_init z n =
     \<lparr>buffer = replicate (unat n) z, size_rb = n, count = 0, position = n - 1\<rparr>"

definition ring_buffer_push :: "'a ring_buffer \<Rightarrow> 'a \<Rightarrow> 'a ring_buffer" where
  "ring_buffer_push b d =
     (let p = (position b + 1) mod size_rb b;
          c = (if count b < size_rb b then count b + 1 else count b)
      in b\<lparr>buffer := (buffer b)[unat p := d], count := c, position := p\<rparr>)"

text \<open>
  \<^verbatim>\<open>ring_buffer_get\<close>: the sum \<^verbatim>\<open>position + buffer->position - buffer->count + 1\<close> is
  computed in \<^verbatim>\<open>size_t\<close>, modulo \<open>2 ^ 64\<close>, before the remainder by the size is taken.
\<close>

definition ring_buffer_get :: "'a ring_buffer \<Rightarrow> size_t \<Rightarrow> 'a" where
  "ring_buffer_get b i =
     (let p = i + (position b - count b + 1)
      in buffer b ! unat (p mod size_rb b))"

text \<open>\<^verbatim>\<open>ring_buffer_copy\<close>: the assertion on the sizes aborts the process.\<close>

definition ring_buffer_copy ::
  "'a ring_buffer \<Rightarrow> 'a ring_buffer \<Rightarrow> error + 'a ring_buffer" where
  "ring_buffer_copy from to =
     (if size_rb from = size_rb to
      then Inr (to\<lparr>buffer := take (unat (size_rb from)) (buffer from)
                             @ drop (unat (size_rb from)) (buffer to),
                   count := count from, position := position from\<rparr>)
      else Inl AssertionFailed)"

definition ring_buffer_clear :: "'a \<Rightarrow> 'a ring_buffer \<Rightarrow> 'a ring_buffer" where
  "ring_buffer_clear z b =
     b\<lparr>buffer := replicate (unat (size_rb b)) z @ drop (unat (size_rb b)) (buffer b),
       count := 0, position := size_rb b - 1\<rparr>"

text \<open>\<^verbatim>\<open>ring_buffer_apply\<close>: the loop \<^verbatim>\<open>for (i = 0; i < count; i++)\<close>.\<close>

definition ring_buffer_apply ::
  "'a ring_buffer \<Rightarrow> ('a \<Rightarrow> 's \<Rightarrow> 's) \<Rightarrow> 's \<Rightarrow> 's" where
  "ring_buffer_apply b op st =
     foldl (\<lambda>acc i. op (ring_buffer_get b (of_nat i)) acc) st [0..<unat (count b)]"

text \<open>
  \<^verbatim>\<open>qsort(base, n, size, compar)\<close> orders the first \<open>n\<close> physical slots of the storage.
  The C library leaves the algorithm open; it is an insertion sort here, which gives the
  result of every sorting algorithm when the comparator is a total order on the data.
\<close>

fun insert_compar :: "('a \<Rightarrow> 'a \<Rightarrow> int_t) \<Rightarrow> 'a \<Rightarrow> 'a list \<Rightarrow> 'a list" where
  "insert_compar compar x [] = [x]"
| "insert_compar compar x (y # ys) =
     (if 0 <s compar x y then y # insert_compar compar x ys else x # y # ys)"

definition qsort :: "'a list \<Rightarrow> size_t \<Rightarrow> ('a \<Rightarrow> 'a \<Rightarrow> int_t) \<Rightarrow> 'a list" where
  "qsort base n compar =
     foldr (insert_compar compar) (take (unat n) base) [] @ drop (unat n) base"

definition ring_buffer_median ::
  "'a ring_buffer \<Rightarrow> ('a \<Rightarrow> 'a \<Rightarrow> int_t) \<Rightarrow> 'a \<times> 'a ring_buffer" where
  "ring_buffer_median b compar =
     (let b' = b\<lparr>buffer := qsort (buffer b) (count b) compar\<rparr>
      in (ring_buffer_get b' (count b' div 2), b'))"

text \<open>\<^verbatim>\<open>compare_int64_t\<close>: the 64-bit difference is converted to \<^verbatim>\<open>int\<close>.\<close>

definition compare_int64_t :: "int64_t \<Rightarrow> int64_t \<Rightarrow> int_t" where
  "compare_int64_t one two = ucast (one - two)"

section \<open>Estimator\<close>

text \<open>
  \<^verbatim>\<open>globalTime\<close>; the argument \<open>t\<close> is the value that \<^verbatim>\<open>localTime()\<close> returns
  inside the call.
\<close>

definition globalTime :: "DRIFTsync \<Rightarrow> int64_t \<Rightarrow> error + int64_t" where
  "globalTime sync t =
     (if 0 < count (samples sync) then
        (let reference = local (ring_buffer_get (samples sync) (count (samples sync) - 1))
         in case int64_of_double (dmul (double_of_int64 (t - reference)) (clockRate sync)) of
              None \<Rightarrow> Inl UndefinedConversion
            | Some d \<Rightarrow> Inr (reference + averageOffset sync + d))
      else Inr 0)"

text \<open>
  \<^verbatim>\<open>medianRoundTripTime\<close>: the flag \<open>locked\<close> only decides whether the lock is taken.
\<close>

definition medianRoundTripTime ::
  "DRIFTsync \<Rightarrow> bool \<Rightarrow> error + (int64_t \<times> DRIFTsync)" where
  "medianRoundTripTime sync locked =
     (case ring_buffer_copy (roundTripTimes sync) (sortedRoundTripTimes sync) of
        Inl e \<Rightarrow> Inl e
      | Inr scratch \<Rightarrow>
          (let (result, scratch') = ring_buffer_median scratch compare_int64_t
           in Inr (result, sync\<lparr>sortedRoundTripTimes := scratch'\<rparr>)))"

text \<open>
  \<^verbatim>\<open>DRIFTsync_create\<close>: the three early returns of \<^verbatim>\<open>NULL\<close> depend on the
  allocator, the socket call and the resolver, which are the environment here.
\<close>

record create_env =
  malloc_ok :: bool
  socket_fd :: int_t
  resolve_ok :: bool

text \<open>The initialisation that follows the three checks.\<close>

definition DRIFTsync_init :: "double \<Rightarrow> int_t \<Rightarrow> int_t \<Rightarrow> DRIFTsync" where
  "DRIFTsync_init scale0 interval0 measureAccuracy0 =
     \<lparr>maxSamples = 10,
      roundTripTimes = ring_buffer_init 0 10,
      sortedRoundTripTimes = ring_buffer_init 0 10,
      samples = ring_buffer_init \<lparr>local = 0, remote = 0\<rparr> 10,
      clockRate = Finite 1,
      offsets = ring_buffer_init 0 10,
      averageOffset = 0,
      accuracySamples = ring_buffer_init 0 10,
      statistics = \<lparr>sentRequests = 0, receivedSamples = 0, rejectedSamples = 0\<rparr>,
      interval = interval0,
      scale = scale0,
      measureAccuracy = measureAccuracy0\<rparr>"

definition DRIFTsync_create ::
  "create_env \<Rightarrow> double \<Rightarrow> int_t \<Rightarrow> int_t \<Rightarrow> DRIFTsync option" where
  "DRIFTsync_create env scale0 interval0 measureAccuracy0 =
     (if \<not> malloc_ok env then None
      else if socket_fd env <s 0 then None
      else if \<not> resolve_ok env then None
      else Some (DRIFTsync_init scale0 interval0 measureAccuracy0))"

section \<open>Probe emitter\<close>

text \<open>
  One pass of the body of \<^verbatim>\<open>request_loop\<close>. The environment gives the clock reading
  and the value that \<^verbatim>\<open>sendto\<close> returns; the pass yields the actions it performs, in
  order. The loop itself never ends: \<open>request_loop\<close> runs it over a finite script of
  environment events.
\<close>

datatype action =
  Send uint64_t
| LogSendFailed
| LogIncomplete int_t
| Sleep int_t

definition request_iteration ::
  "DRIFTsync \<Rightarrow> int64_t \<times> int_t \<Rightarrow> DRIFTsync \<times> action list" where
  "request_iteration sync ev =
     (let sync' = sync\<lparr>statistics := (statistics sync)
                    \<lparr>sentRequests := sentRequests (statistics sync) + 1\<rparr>\<rparr>;
          result = snd ev
      in if result <s 0 then (sync', [Send (fst ev), LogSendFailed])
         else if result \<noteq> 32 then (sync', [Send (fst ev), LogIncomplete result])
         else (sync', [Send (fst ev), Sleep (interval sync')]))"

fun request_loop ::
  "DRIFTsync \<Rightarrow> (int64_t \<times> int_t) list \<Rightarrow> DRIFTsync \<times> action list" where
  "request_loop sync [] = (sync, [])"
| "request_loop sync (ev # evs) =
     (let (sync', acts) = request_iteration sync ev;
          (sync'', rest) = request_loop sync' evs
      in (sync'', acts @ rest))"

section \<open>Reply ingestor\<close>

definition sum_int64_t :: "int64_t \<Rightarrow> int64_t \<Rightarrow> int64_t" where
  "sum_int64_t data st = st + data"

datatype verdict = Rejected | Accepted

text \<open>
  The first critical section of \<^verbatim>\<open>receive_loop\<close> (from the first
  \<^verbatim>\<open>pthread_mutex_lock\<close> to the matching unlock), for a packet that passed the checks;
  \<open>now\<close> is the clock reading taken after \<^verbatim>\<open>recvfrom\<close>. It is written in three
  parts: \<open>push_round_trip\<close> counts the reply and pushes its round trip,
  \<open>receive_update\<close> applies the median filter, and \<open>accept_sample\<close> is the rest of the
  section for a sample that passed. The quotient \<^verbatim>\<open>total / sync->offsets.count\<close> has a
  \<^verbatim>\<open>size_t\<close> operand, so the division is the unsigned one.
\<close>

definition push_round_trip :: "DRIFTsync \<Rightarrow> int64_t \<Rightarrow> driftsync_packet \<Rightarrow> DRIFTsync" where
  "push_round_trip sync now pkt =
     (let s1 = sync\<lparr>statistics := (statistics sync)
                  \<lparr>receivedSamples := receivedSamples (statistics sync) + 1\<rparr>\<rparr>;
          roundTripTime = now - local_pkt pkt
      in s1\<lparr>roundTripTimes := ring_buffer_push (roundTripTimes s1) roundTripTime\<rparr>)"

definition accept_sample :: "DRIFTsync \<Rightarrow> driftsync_packet \<Rightarrow> DRIFTsync" where
  "accept_sample s3 pkt =
     (let smp = \<lparr>local = local_pkt pkt, remote = remote_pkt pkt\<rparr>;
          s4 = s3\<lparr>samples := ring_buffer_push (samples s3) smp\<rparr>;
          s5 = (if 2 \<le> count (samples s4) then
                  (let first = ring_buffer_get (samples s4) 0;
                       last = ring_buffer_get (samples s4) (count (samples s4) - 1)
                   in s4\<lparr>clockRate :=
                         ddiv (double_of_int64 (remote last - remote first))
                              (double_of_int64 (local last - local first))\<rparr>)
                else s4);
          offset = remote_pkt pkt - local_pkt pkt;
          s6 = s5\<lparr>offsets := ring_buffer_push (offsets s5) offset\<rparr>;
          total = ring_buffer_apply (offsets s6) sum_int64_t 0
      in s6\<lparr>averageOffset := total div count (offsets s6)\<rparr>)"

definition receive_update ::
  "DRIFTsync \<Rightarrow> int64_t \<Rightarrow> driftsync_packet \<Rightarrow> error + (verdict \<times> DRIFTsync)" where
  "receive_update sync now pkt =
     (let roundTripTime = now - local_pkt pkt
      in case medianRoundTripTime (push_round_trip sync now pkt) True of
           Inl e \<Rightarrow> Inl e
         | Inr (median, s3) \<Rightarrow>
             (let difference = roundTripTime - median
              in if 10000 <s (if difference <s 0 then - difference else difference) then
                   Inr (Rejected, s3\<lparr>statistics := (statistics s3)
                          \<lparr>rejectedSamples := rejectedSamples (statistics s3) + 1\<rparr>\<rparr>)
                 else Inr (Accepted, accept_sample s3 pkt)))"

text \<open>
  One pass of the body of \<^verbatim>\<open>receive_loop\<close>. The environment gives what \<^verbatim>\<open>recvfrom\<close>
  returns and stores, and the five clock readings of the pass in the order of the calls
  of \<^verbatim>\<open>localTime\<close>.
\<close>

record reception =
  result :: int_t
  packet :: driftsync_packet
  now :: int64_t
  t_measure :: int64_t
  t_global_before :: int64_t
  t_global_after :: int64_t
  t_after :: int64_t

definition receive_iteration :: "DRIFTsync \<Rightarrow> reception \<Rightarrow> error + DRIFTsync" where
  "receive_iteration sync rx =
     (if result rx <s 0 then Inr sync
      else if result rx <s 32 then Inr sync
      else if magic (packet rx) \<noteq> DRIFTSYNC_MAGIC then Inr sync
      else if flags (packet rx) AND DRIFTSYNC_FLAG_REPLY = 0 then Inr sync
      else
        case (if measureAccuracy sync \<noteq> 0
              then (case globalTime sync (t_global_before rx) of
                      Inl e \<Rightarrow> Inl e
                    | Inr g \<Rightarrow> Inr (t_measure rx, g))
              else Inr (0, 0)) of
          Inl e \<Rightarrow> Inl e
        | Inr (measureLocalTime, measureGlobalTime) \<Rightarrow>
            (case receive_update sync (now rx) (packet rx) of
               Inl e \<Rightarrow> Inl e
             | Inr (Rejected, s') \<Rightarrow> Inr s'
             | Inr (Accepted, s') \<Rightarrow>
                 (if measureAccuracy s' \<noteq> 0 \<and> 1 < count (samples s') then
                    (case globalTime s' (t_global_after rx) of
                       Inl e \<Rightarrow> Inl e
                     | Inr g \<Rightarrow>
                         (let measureGlobalTime' = measureGlobalTime - g;
                              measureLocalTime' = measureLocalTime - t_after rx;
                              accuracySample = measureGlobalTime' - measureLocalTime';
                              accuracySample' = (if accuracySample <s 0
                                                 then - accuracySample else accuracySample)
                          in Inr (s'\<lparr>accuracySamples :=
                                    ring_buffer_push (accuracySamples s') accuracySample'\<rparr>)))
                  else Inr s')))"

fun receive_loop :: "DRIFTsync \<Rightarrow> reception list \<Rightarrow> error + DRIFTsync" where
  "receive_loop sync [] = Inr sync"
| "receive_loop sync (rx # rxs) =
     (case receive_iteration sync rx of
        Inl e \<Rightarrow> Inl e
      | Inr sync' \<Rightarrow> receive_loop sync' rxs)"

section \<open>Query surface\<close>



definition DRIFTsync_medianRoundTripTime ::
  "DRIFTsync \<Rightarrow> error + (double \<times> DRIFTsync)" where
  "DRIFTsync_medianRoundTripTime sync =
     (case medianRoundTripTime sync False of
        Inl e \<Rightarrow> Inl e
      | Inr (m, sync') \<Rightarrow> Inr (dmul (double_of_int64 m) (scale sync), sync'))"

text \<open>
  \<^verbatim>\<open>DRIFTsync_accuracy\<close>. The environment gives the reading of the realtime clock, the
  value that the wait on the condition variable returns, and what the other threads do
  to the client while the caller waits with the lock released. The third component of
  the result is the absolute time handed to \<^verbatim>\<open>pthread_cond_timedwait\<close>, if it is called.
\<close>

record timespec =
  tv_sec :: int64_t
  tv_nsec :: int64_t

record wait_env =
  realtime :: timespec
  wait_result :: int_t
  during_wait :: "DRIFTsync \<Rightarrow> DRIFTsync"

definition DBL_MAX :: double where
  "DBL_MAX = Finite ((2 ^ 53 - 1) * 2 ^ 971)"

definition double_of_size_t :: "size_t \<Rightarrow> double" where
  "double_of_size_t n = Finite (of_nat (unat n))"

definition accumulate_accuracy :: "int64_t \<Rightarrow> accuracy \<Rightarrow> accuracy" where
  "accumulate_accuracy data st =
     (let st1 = (if dless (double_of_int64 data) (min_acc st)
                 then st\<lparr>min_acc := double_of_int64 data\<rparr> else st);
          st2 = (if dless (max_acc st1) (double_of_int64 data)
                 then st1\<lparr>max_acc := double_of_int64 data\<rparr> else st1)
      in st2\<lparr>average := dadd (average st2) (double_of_int64 data)\<rparr>)"

text \<open>The statements that add the timeout to the clock reading.\<close>

definition accuracy_deadline :: "timespec \<Rightarrow> int_t \<Rightarrow> timespec" where
  "accuracy_deadline spec timeout =
     spec\<lparr>tv_sec := tv_sec spec + scast (sdiv_w (sdiv_w timeout 1000) 1000),
          tv_nsec := tv_nsec spec + scast (sdiv_w (smod_w timeout 1000) 1000 * 1000)\<rparr>"

text \<open>The part of \<^verbatim>\<open>DRIFTsync_accuracy\<close> after the wait.\<close>

definition accuracy_report :: "DRIFTsync \<Rightarrow> accuracy \<Rightarrow> accuracy" where
  "accuracy_report sync acc =
     (if count (accuracySamples sync) = 0 then acc
      else
        (let a1 = acc\<lparr>min_acc := DBL_MAX\<rparr>;
             a2 = ring_buffer_apply (accuracySamples sync) accumulate_accuracy a1;
             a3 = a2\<lparr>average :=
                       ddiv (average a2) (double_of_size_t (count (accuracySamples sync)))\<rparr>
         in \<lparr>min_acc = dmul (min_acc a3) (scale sync),
             average = dmul (average a3) (scale sync),
             max_acc = dmul (max_acc a3) (scale sync)\<rparr>))"

definition DRIFTsync_accuracy ::
  "DRIFTsync \<Rightarrow> int_t \<Rightarrow> int_t \<Rightarrow> int_t \<Rightarrow> wait_env
     \<Rightarrow> accuracy \<times> DRIFTsync \<times> timespec option" where
  "DRIFTsync_accuracy sync wait reset timeout env =
     (let acc = \<lparr>min_acc = Finite 0, average = Finite 0, max_acc = Finite 0\<rparr>
      in if measureAccuracy sync = 0 then (acc, sync, None)
         else
           (let s1 = (if reset \<noteq> 0
                      then sync\<lparr>accuracySamples :=
                                  ring_buffer_clear 0 (accuracySamples sync)\<rparr>
                      else sync)
            in if wait \<noteq> 0 then
                 (if 0 <s timeout then
                    (let spec = accuracy_deadline (realtime env) timeout;
                         s2 = during_wait env s1
                     in if wait_result env \<noteq> 0 then (acc, s2, Some spec)
                        else (accuracy_report s2 acc, s2, Some spec))
                  else
                    (let s2 = during_wait env s1
                     in if wait_result env \<noteq> 0 then (acc, s2, None)
                        else (accuracy_report s2 acc, s2, None)))
               else (accuracy_report s1 acc, s1, None)))"

section \<open>Executions\<close>

text \<open>
  The operations that change the client, one after the other as the lock orders them.
  An accuracy query is taken without activity of the other threads inside its wait;
  that activity is the events that follow it.
\<close>

datatype event =
  Receive reception
| Request "int64_t \<times> int_t"
| QueryMedian
| QueryAccuracy int_t int_t int_t timespec int_t

fun step :: "DRIFTsync \<Rightarrow> event \<Rightarrow> error + DRIFTsync" where
  "step sync (Receive rx) = receive_iteration sync rx"
| "step sync (Request ev) = Inr (fst (request_iteration sync ev))"
| "step sync QueryMedian =
     (case DRIFTsync_medianRoundTripTime sync of
        Inl e \<Rightarrow> Inl e
      | Inr (m, sync') \<Rightarrow> Inr sync')"
| "step sync (QueryAccuracy wait reset timeout rt rc) =
     Inr (fst (snd (DRIFTsync_accuracy sync wait reset timeout
                      \<lparr>realtime = rt, wait_result = rc, during_wait = (\<lambda>s. s)\<rparr>)))"

fun run :: "DRIFTsync \<Rightarrow> event list \<Rightarrow> error + DRIFTsync" where
  "run sync [] = Inr sync"
| "run sync (ev # evs) =
     (case step sync ev of
        Inl e \<Rightarrow> Inl e
      | Inr sync' \<Rightarrow> run sync' evs)"

text \<open>The ring after the elements of a list have been pushed, oldest first.\<close>

definition pushes :: "'a \<Rightarrow> size_t \<Rightarrow> 'a list \<Rightarrow> 'a ring_buffer" where
  "pushes z n xs = foldl ring_buffer_push (ring_buffer_init z n) xs"

section \<open>Notions of the specification\<close>



text \<open>
  A ring as \<^verbatim>\<open>DRIFTsync_create\<close> allocates it and the ring operations keep it:
  capacity 10, and while it has not filled up the next slot to write is slot \<open>count\<close>.
\<close>

definition ring_inv :: "'a ring_buffer \<Rightarrow> bool" where
  "ring_inv b \<longleftrightarrow>
     size_rb b = 10 \<and> length (buffer b) = 10 \<and> count b \<le> 10 \<and> position b < 10
     \<and> (count b < 10 \<longrightarrow> (position b + 1) mod 10 = count b)"

definition client_inv :: "DRIFTsync \<Rightarrow> bool" where
  "client_inv sync \<longleftrightarrow>
     ring_inv (roundTripTimes sync) \<and> ring_inv (sortedRoundTripTimes sync)
     \<and> ring_inv (samples sync) \<and> ring_inv (offsets sync)
     \<and> ring_inv (accuracySamples sync)
     \<and> (count (roundTripTimes sync) = 0 \<longrightarrow> buffer (roundTripTimes sync) = replicate 10 0)"




text \<open>A reception that passes the four checks of \<^verbatim>\<open>receive_loop\<close>, and its round trip.\<close>

definition valid_reception :: "reception \<Rightarrow> bool" where
  "valid_reception rx \<longleftrightarrow>
     \<not> result rx <s 0 \<and> \<not> result rx <s 32 \<and> magic (packet rx) = DRIFTSYNC_MAGIC
     \<and> flags (packet rx) AND DRIFTSYNC_FLAG_REPLY \<noteq> 0"

definition round_trip :: "reception \<Rightarrow> int64_t" where
  "round_trip rx = now rx - local_pkt (packet rx)"

section \<open>Example inputs\<close>

text \<open>A well-formed reply received at time \<open>n\<close>, all clock readings of the pass being \<open>n\<close>.\<close>

definition valid_reply :: "int64_t \<Rightarrow> uint64_t \<Rightarrow> uint64_t \<Rightarrow> reception" where
  "valid_reply n l r =
     \<lparr>result = 32,
      packet = \<lparr>magic = DRIFTSYNC_MAGIC, flags = DRIFTSYNC_FLAG_REPLY,
                local_pkt = l, remote_pkt = r, reserved = 0\<rparr>,
      now = n, t_measure = n, t_global_before = n, t_global_after = n, t_after = n\<rparr>"

definition full_ring :: "int64_t ring_buffer" where
  "full_ring = pushes 0 10 [1, 2, 3, 4, 5, 6, 7, 8, 9, 10]"

text \<open>A client created with scale 1, probe interval 5 s and accuracy measurement off.\<close>

definition fresh_client :: DRIFTsync where
  "fresh_client = DRIFTsync_init (Finite 1) 5000000 0"

text \<open>
  The client after one reply that was sent at 900, stamped 5000 by the server and
  received at 1000.
\<close>

definition client_one_sample :: DRIFTsync where
  "client_one_sample =
     fresh_client
       \<lparr>roundTripTimes :=
          \<lparr>buffer = 100 # replicate 9 0, size_rb = 10, count = 1, position = 0\<rparr>,
        sortedRoundTripTimes :=
          \<lparr>buffer = 100 # replicate 9 0, size_rb = 10, count = 1, position = 0\<rparr>,
        samples :=
          \<lparr>buffer = \<lparr>local = 900, remote = 5000\<rparr> # replicate 9 \<lparr>local = 0, remote = 0\<rparr>,
           size_rb = 10, count = 1, position = 0\<rparr>,
        offsets :=
          \<lparr>buffer = 4100 # replicate 9 0, size_rb = 10, count = 1, position = 0\<rparr>,
        averageOffset := 4100,
        statistics := \<lparr>sentRequests = 0, receivedSamples = 1, rejectedSamples = 0\<rparr>\<rparr>"

text \<open>
  The client after two replies from a server whose clock is 1000 behind: both round
  trips are 100, both offsets are \<open>- 1000\<close>.
\<close>

definition two_replies :: "reception list" where
  "two_replies = [valid_reply 2000 1900 900, valid_reply 3000 2900 1900]"

definition client_two_samples :: DRIFTsync where
  "client_two_samples =
     fresh_client
       \<lparr>roundTripTimes :=
          \<lparr>buffer = 100 # 100 # replicate 8 0, size_rb = 10, count = 2, position = 1\<rparr>,
        sortedRoundTripTimes :=
          \<lparr>buffer = 100 # 100 # replicate 8 0, size_rb = 10, count = 2, position = 1\<rparr>,
        samples :=
          \<lparr>buffer = \<lparr>local = 1900, remote = 900\<rparr> # \<lparr>local = 2900, remote = 1900\<rparr>
                      # replicate 8 \<lparr>local = 0, remote = 0\<rparr>,
           size_rb = 10, count = 2, position = 1\<rparr>,
        offsets :=
          \<lparr>buffer = (- 1000) # (- 1000) # replicate 8 0,
           size_rb = 10, count = 2, position = 1\<rparr>,
        averageOffset := 9223372036854774808,
        statistics := \<lparr>sentRequests = 0, receivedSamples = 2, rejectedSamples = 0\<rparr>\<rparr>"

text \<open>
  A client whose ring of round trips has received eleven values, as it has after eleven
  well-formed replies with these round trips.
\<close>

definition client_eleven_round_trips :: DRIFTsync where
  "client_eleven_round_trips =
     fresh_client
       \<lparr>roundTripTimes := pushes 0 10 [101, 102, 103, 104, 105, 106, 107, 108, 109, 110, 111]\<rparr>"

text \<open>A wait that ends by timeout (\<^verbatim>\<open>ETIMEDOUT\<close> is 110), at the realtime reading 100 s.\<close>

definition timeout_env :: wait_env where
  "timeout_env =
     \<lparr>realtime = \<lparr>tv_sec = 100, tv_nsec = 0\<rparr>, wait_result = 110,
      during_wait = (\<lambda>s. s)\<rparr>"

text \<open>The client that \<^verbatim>\<open>main\<close> creates: scale \<^verbatim>\<open>SCALE_MS\<close>, accuracy measurement on.\<close>

definition main_client :: DRIFTsync where
  "main_client = DRIFTsync_init (Finite (1 / 1000)) 5000000 1"




text \<open>
  Eleven well-formed replies, the \<open>k\<close>-th sent at \<open>1000 * k\<close>, stamped
  \<open>1000 * k + 500\<close> and received after a round trip of \<open>100 + k\<close>.
\<close>

definition eleven_replies :: "reception list" where
  "eleven_replies =
     map (\<lambda>k. valid_reply (1000 * k + 100 + k) (1000 * k) (1000 * k + 500))
       [1, 2, 3, 4, 5, 6, 7, 8, 9, 10, 11]"

section \<open>Properties\<close>

subsection \<open>Ring history\<close>

text \<open>
  C8 (push on a full ring). The ring \<open>full_ring\<close> holds ten elements and reads them
  back in insertion order. After one more push the newest element is read at index
  \<open>count - 1\<close> and the count stays at the capacity, but the reads at the other indices
  are not the former contents shifted down by one: index \<open>0\<close> gives \<open>8\<close> where the
  element formerly at index \<open>1\<close> is \<open>2\<close>, the new element \<open>11\<close> is also read at index
  \<open>3\<close>, and the retained element \<open>7\<close> is read at no index.
\<close>

theorem ring_buffer_push_full_reads:
  "count full_ring = size_rb full_ring
   \<and> map (ring_buffer_get full_ring) [0, 1, 2, 3, 4, 5, 6, 7, 8, 9]
       = [1, 2, 3, 4, 5, 6, 7, 8, 9, 10]
   \<and> count (ring_buffer_push full_ring 11) = 10
   \<and> map (ring_buffer_get (ring_buffer_push full_ring 11)) [0, 1, 2, 3, 4, 5, 6, 7, 8, 9]
       = [8, 9, 10, 11, 2, 3, 4, 5, 6, 11]"
  by code_simp

text \<open>
  C2 (median of the round trips). After eleven round trips the live ring is full and
  its position is \<open>0\<close>. The sorted copy is \<open>[102, ..., 111]\<close>, whose element at index
  \<open>count div 2 = 5\<close> is \<open>107\<close>; the call returns \<open>104\<close>, the element at index \<open>2\<close>,
  because \<open>ring_buffer_get\<close> rotates the index by the ring position after the storage
  has been sorted. The live ring is left as it was.
\<close>

theorem medianRoundTripTime_after_wrap:
  "count (roundTripTimes client_eleven_round_trips) = 10
   \<and> position (roundTripTimes client_eleven_round_trips) = 0
   \<and> buffer (roundTripTimes client_eleven_round_trips)
       = [111, 102, 103, 104, 105, 106, 107, 108, 109, 110]
   \<and> medianRoundTripTime client_eleven_round_trips False
       = Inr (104, client_eleven_round_trips
                \<lparr>sortedRoundTripTimes :=
                   \<lparr>buffer = [102, 103, 104, 105, 106, 107, 108, 109, 110, 111],
                    size_rb = 10, count = 10, position = 0\<rparr>\<rparr>)"
  by code_simp

text \<open>The median query changes the scratch ring only.\<close>

lemma medianRoundTripTime_fields:
  assumes "medianRoundTripTime sync locked = Inr (m, sync')"
  shows "roundTripTimes sync' = roundTripTimes sync" and "samples sync' = samples sync"
    and "offsets sync' = offsets sync" and "accuracySamples sync' = accuracySamples sync"
    and "averageOffset sync' = averageOffset sync" and "clockRate sync' = clockRate sync"
    and "statistics sync' = statistics sync" and "scale sync' = scale sync"
    and "measureAccuracy sync' = measureAccuracy sync"
  using assms
  by (auto simp: medianRoundTripTime_def ring_buffer_median_def Let_def
           split: sum.splits prod.splits)

subsection \<open>Estimator\<close>

text \<open>
  C1, as stated (fewer than two accepted samples give global time 0), fails with exactly
  one accepted sample: the client that has processed one reply holds one sample, and
  its global time at the local time 1200 is \<open>900 + 4100 + 300 = 5300\<close>.
\<close>

theorem globalTime_one_sample_nonzero:
  "receive_loop fresh_client [valid_reply 1000 900 5000] = Inr client_one_sample
   \<and> count (samples client_one_sample) < 2
   \<and> globalTime client_one_sample 1200 = Inr 5300
   \<and> globalTime client_one_sample 1200 \<noteq> Inr 0"
  by code_simp

text \<open>
  C1, amended: in every client state in which no sample has been accepted (the samples
  ring is empty), global time is 0, whatever the clock reads.
\<close>

theorem globalTime_no_sample:
  "count (samples sync) = 0 \<Longrightarrow> globalTime sync t = Inr 0"
  by (simp add: globalTime_def)

theorem globalTime_no_sample_witness:
  "count (samples fresh_client) = 0 \<and> globalTime fresh_client 1200 = Inr 0"
proof -
  have h: "count (samples fresh_client) = 0"
    by (simp add: fresh_client_def DRIFTsync_init_def ring_buffer_init_def)
  show ?thesis using h globalTime_no_sample [OF h, of 1200] by simp
qed

text \<open>
  C5 (average offset). Two replies with offset \<open>- 1000\<close> are accepted; the offsets ring
  then holds \<open>- 1000\<close> twice, whose mean is \<open>- 1000\<close>. The stored average is
  \<open>9223372036854774808 = 2 ^ 63 - 1000\<close>: the sum \<open>- 2000\<close> is divided by the
  \<^verbatim>\<open>size_t\<close> count, hence as the unsigned number \<open>2 ^ 64 - 2000\<close>.
\<close>

theorem averageOffset_negative_offsets:
  "receive_loop fresh_client two_replies = Inr client_two_samples
   \<and> count (offsets client_two_samples) = 2
   \<and> map (ring_buffer_get (offsets client_two_samples)) [0, 1] = [- 1000, - 1000]
   \<and> sint (averageOffset client_two_samples) = 9223372036854774808"
  by code_simp

subsection \<open>Probe emitter\<close>

text \<open>
  C9 (sleep after every send). A send that fails, or that writes short, is logged and
  the next probe is sent at once: the \<^verbatim>\<open>continue\<close> skips the sleep at the end of the
  loop body.
\<close>

theorem request_loop_failed_send_no_sleep:
  "snd (request_loop fresh_client [(100, - 1), (200, 32)])
     = [Send 100, LogSendFailed, Send 200, Sleep 5000000]
   \<and> snd (request_loop fresh_client [(100, 16), (200, 32)])
     = [Send 100, LogIncomplete 16, Send 200, Sleep 5000000]"
  by code_simp

subsection \<open>Query surface\<close>

text \<open>
  The timeout never changes the nanoseconds of the deadline: \<open>timeout % 1000 / 1000\<close>
  is 0 for every \<^verbatim>\<open>int\<close>.
\<close>

lemma sdiv_smod_1000: "sdiv_w (smod_w (t :: int_t) 1000) 1000 = 0"
proof -
  have b: "\<bar>sint t smod 1000\<bar> < 1000"
    by (simp add: signed_modulo_int_def abs_mult abs_sgn_eq)
  have "sint (word_of_int (sint t smod 1000) :: int_t) = sint t smod 1000"
    using b by (simp add: sint_sbintrunc' signed_take_bit_int_eq_self_iff abs_if split: if_splits)
  then show ?thesis using b
    by (simp add: sdiv_w_def smod_w_def signed_divide_int_def)
qed

lemma accuracy_deadline_nsec_unchanged:
  "tv_nsec (accuracy_deadline spec timeout) = tv_nsec spec"
  by (simp add: accuracy_deadline_def sdiv_smod_1000)

text \<open>
  C7 (deadline of the timed wait). With a timeout of 1.5 s at the realtime reading
  100 s the deadline handed to the timed wait is 101 s, not 101.5 s; with a timeout of
  10 ms it is the current time. On expiry the summary is zeroed.
\<close>

theorem DRIFTsync_accuracy_deadline_whole_seconds:
  "DRIFTsync_accuracy main_client 1 0 1500000 timeout_env
     = (\<lparr>min_acc = Finite 0, average = Finite 0, max_acc = Finite 0\<rparr>, main_client,
        Some \<lparr>tv_sec = 101, tv_nsec = 0\<rparr>)
   \<and> DRIFTsync_accuracy main_client 1 0 10000 timeout_env
     = (\<lparr>min_acc = Finite 0, average = Finite 0, max_acc = Finite 0\<rparr>, main_client,
        Some \<lparr>tv_sec = 100, tv_nsec = 0\<rparr>)"
  by code_simp




subsection \<open>Invariants of the rings\<close>

lemma length_insert_compar: "length (insert_compar c x ys) = Suc (length ys)"
  by (induction ys) auto

lemma length_isort: "length (foldr (insert_compar c) xs []) = length xs"
  by (induction xs) (auto simp: length_insert_compar)

lemma length_qsort: "length (qsort base n c) = length base"
  by (simp add: qsort_def length_isort)


lemma word_lt_10_cases:
  "(w :: size_t) < 10 \<Longrightarrow> w \<in> {0, 1, 2, 3, 4, 5, 6, 7, 8, 9}"
proof -
  assume "w < 10"
  then have "unat w < 10" by (simp add: word_less_nat_alt)
  then have "unat w \<in> {0, 1, 2, 3, 4, 5, 6, 7, 8, 9}" by auto
  then have "word_of_nat (unat w) \<in> (word_of_nat ` {0, 1, 2, 3, 4, 5, 6, 7, 8, 9} :: size_t set)"
    by (rule imageI)
  then show ?thesis by simp
qed

lemma ring_inv_push:
  assumes "ring_inv b"
  shows "ring_inv (ring_buffer_push b x)"
proof -
  from assms have sz: "size_rb b = 10" and len: "length (buffer b) = 10"
    and c: "count b \<le> 10" and p: "position b < 10"
    and nf: "count b < 10 \<longrightarrow> (position b + 1) mod 10 = count b"
    by (simp_all add: ring_inv_def)
  have p': "(position b + 1) mod 10 < 10" by (simp add: word_mod_less_divisor)
  show ?thesis
  proof (cases "count b < 10")
    case True
    then have "count b \<in> {0, 1, 2, 3, 4, 5, 6, 7, 8, 9}" by (rule word_lt_10_cases)
    then have "count b + 1 \<le> 10 \<and> (count b + 1 < 10 \<longrightarrow> (count b + 1) mod 10 = count b + 1)"
      by auto
    with True nf sz len p' show ?thesis
      by (simp add: ring_inv_def ring_buffer_push_def Let_def)
  next
    case False
    with c sz len p' show ?thesis
      by (simp add: ring_inv_def ring_buffer_push_def Let_def)
  qed
qed

lemma count_push_nonzero:
  assumes "ring_inv b"
  shows "count (ring_buffer_push b x) \<noteq> 0"
proof (cases "count b < 10")
  case True
  then have "count b \<in> {0, 1, 2, 3, 4, 5, 6, 7, 8, 9}" by (rule word_lt_10_cases)
  then have "count b + 1 \<noteq> 0" by auto
  with True assms show ?thesis
    by (simp add: ring_inv_def ring_buffer_push_def Let_def)
next
  case False
  then have "count b \<noteq> 0" by auto
  with False assms show ?thesis
    by (simp add: ring_inv_def ring_buffer_push_def Let_def)
qed


lemma ring_buffer_copy_inv:
  assumes "ring_inv from" and "ring_inv to"
  shows "ring_buffer_copy from to
           = Inr (to\<lparr>buffer := buffer from, count := count from, position := position from\<rparr>)"
    and "ring_inv (to\<lparr>buffer := buffer from, count := count from, position := position from\<rparr>)"
  using assms by (simp_all add: ring_inv_def ring_buffer_copy_def)

lemma ring_inv_qsort:
  "ring_inv b \<Longrightarrow> ring_inv (b\<lparr>buffer := qsort (buffer b) n c\<rparr>)"
  by (simp add: ring_inv_def length_qsort)

lemma medianRoundTripTime_defined:
  assumes "ring_inv (roundTripTimes sync)" and "ring_inv (sortedRoundTripTimes sync)"
  shows "\<exists>m sc. medianRoundTripTime sync locked = Inr (m, sync\<lparr>sortedRoundTripTimes := sc\<rparr>)
               \<and> ring_inv sc
               \<and> sc = (sortedRoundTripTimes sync)
                        \<lparr>buffer := qsort (buffer (roundTripTimes sync))
                                     (count (roundTripTimes sync)) compare_int64_t,
                         count := count (roundTripTimes sync),
                         position := position (roundTripTimes sync)\<rparr>
               \<and> m = ring_buffer_get sc (count sc div 2)"
proof -
  let ?cp = "(sortedRoundTripTimes sync)\<lparr>buffer := buffer (roundTripTimes sync),
               count := count (roundTripTimes sync), position := position (roundTripTimes sync)\<rparr>"
  have cp: "ring_buffer_copy (roundTripTimes sync) (sortedRoundTripTimes sync) = Inr ?cp"
    and inv: "ring_inv ?cp"
    using assms by (rule ring_buffer_copy_inv)+
  from inv have "ring_inv (?cp\<lparr>buffer := qsort (buffer ?cp) (count ?cp) compare_int64_t\<rparr>)"
    by (rule ring_inv_qsort)
  then show ?thesis
    by (simp add: medianRoundTripTime_def cp ring_buffer_median_def Let_def
          ring_inv_def ring_buffer_get_def)
qed

subsection \<open>Reply ingestor\<close>







subsection \<open>The client invariant\<close>

text \<open>
  \<^verbatim>\<open>DRIFTsync_create\<close> establishes the invariant and every operation keeps it.
\<close>

lemma client_inv_init: "client_inv (DRIFTsync_init sc iv ma)"
  by (simp add: client_inv_def ring_inv_def DRIFTsync_init_def ring_buffer_init_def)

lemma client_inv_push_round_trip:
  assumes "client_inv sync"
  shows "client_inv (push_round_trip sync recv pkt)"
  using assms
  by (simp add: client_inv_def push_round_trip_def Let_def ring_inv_push count_push_nonzero)

lemma client_inv_median:
  assumes inv: "client_inv sync" and med: "medianRoundTripTime sync locked = Inr (m, sync')"
  shows "client_inv sync'"
proof -
  from inv have "ring_inv (roundTripTimes sync)" "ring_inv (sortedRoundTripTimes sync)"
    by (simp_all add: client_inv_def)
  then obtain m' sc where
    "medianRoundTripTime sync locked = Inr (m', sync\<lparr>sortedRoundTripTimes := sc\<rparr>)"
    and "ring_inv sc"
    using medianRoundTripTime_defined by blast
  with med inv show ?thesis by (auto simp: client_inv_def)
qed

lemma client_inv_accept_sample:
  assumes "client_inv sync"
  shows "client_inv (accept_sample sync pkt)"
  using assms
  by (simp add: client_inv_def accept_sample_def Let_def ring_inv_push)

lemma client_inv_receive_update:
  assumes inv: "client_inv sync" and ru: "receive_update sync recv pkt = Inr (v, sync')"
  shows "client_inv sync'"
proof -
  have i2: "client_inv (push_round_trip sync recv pkt)"
    using inv by (rule client_inv_push_round_trip)
  from ru obtain m s3 where
    med: "medianRoundTripTime (push_round_trip sync recv pkt) True = Inr (m, s3)"
    by (auto simp: receive_update_def Let_def split: sum.splits)
  from i2 med have i3: "client_inv s3" by (rule client_inv_median)
  have i4: "client_inv (accept_sample s3 pkt)" using i3 by (rule client_inv_accept_sample)
  have i5: "client_inv (s3\<lparr>statistics := st\<rparr>)" for st
    using i3 by (simp add: client_inv_def)
  from ru show ?thesis
    by (auto simp: receive_update_def Let_def med i4 i5 split: if_splits)
qed

lemma client_inv_receive_iteration:
  assumes inv: "client_inv sync" and it: "receive_iteration sync rx = Inr sync'"
  shows "client_inv sync'"
proof -
  have acc: "client_inv (s\<lparr>accuracySamples := ring_buffer_push (accuracySamples s) x\<rparr>)"
    if "client_inv s" for s x
    using that by (simp add: client_inv_def ring_inv_push)
  from it inv show ?thesis
    by (auto simp: receive_iteration_def Let_def acc
             split: if_splits sum.splits prod.splits verdict.splits
             dest: client_inv_receive_update)
qed







subsection \<open>Contents of a ring after pushes\<close>

lemma pushes_snoc: "pushes z n (xs @ [x]) = ring_buffer_push (pushes z n xs) x"
  by (simp add: pushes_def)







subsection \<open>Clock rate\<close>

lemma accept_sample_samples:
  "samples (accept_sample s pkt)
     = ring_buffer_push (samples s) \<lparr>local = local_pkt pkt, remote = remote_pkt pkt\<rparr>"
  by (simp add: accept_sample_def Let_def)


lemma receive_update_accepted:
  assumes "receive_update sync recv pkt = Inr (Accepted, sync')"
  shows "\<exists>s3. sync' = accept_sample s3 pkt \<and> samples s3 = samples sync
              \<and> offsets s3 = offsets sync"
proof -
  from assms obtain m s3 where
    med: "medianRoundTripTime (push_round_trip sync recv pkt) True = Inr (m, s3)"
    and s': "sync' = accept_sample s3 pkt"
    by (auto simp: receive_update_def Let_def split: sum.splits if_splits)
  have "samples s3 = samples sync" "offsets s3 = offsets sync"
    by (simp_all add: medianRoundTripTime_fields [OF med] push_round_trip_def Let_def)
  with s' show ?thesis by blast
qed





text \<open>
  The samples ring of every state that a created client reaches is the ring after the
  pushes of some history.
\<close>

lemma step_samples_history:
  assumes h: "samples sync = pushes z 10 xs" and st: "step sync ev = Inr sync'"
  shows "\<exists>ys. samples sync' = pushes z 10 ys"
proof (cases ev)
  case (Receive rx)
  have upd: "\<exists>ys. samples s' = pushes z 10 ys"
    if "receive_update sync recv pkt = Inr (v, s')" for recv pkt v s'
  proof (cases v)
    case Accepted
    with that obtain s3 where "s' = accept_sample s3 pkt" "samples s3 = samples sync"
      using receive_update_accepted by blast
    then have "samples s' = pushes z 10 (xs @ [\<lparr>local = local_pkt pkt, remote = remote_pkt pkt\<rparr>])"
      by (simp add: accept_sample_samples h pushes_snoc)
    then show ?thesis by blast
  next
    case Rejected
    with that obtain m s3 where
      med: "medianRoundTripTime (push_round_trip sync recv pkt) True = Inr (m, s3)"
      and s': "s' = s3\<lparr>statistics := (statistics s3)
                       \<lparr>rejectedSamples := rejectedSamples (statistics s3) + 1\<rparr>\<rparr>"
      by (auto simp: receive_update_def Let_def split: sum.splits if_splits)
    have "samples s' = samples sync"
      by (simp add: s' medianRoundTripTime_fields [OF med] push_round_trip_def Let_def)
    with h show ?thesis by auto
  qed
  from st Receive have "receive_iteration sync rx = Inr sync'" by simp
  then show ?thesis
    using h
    by (auto simp: receive_iteration_def Let_def
             split: if_splits sum.splits prod.splits verdict.splits dest: upd)
next
  case (Request e)
  with st have "samples sync' = samples sync"
    by (auto simp: request_iteration_def Let_def)
  with h show ?thesis by auto
next
  case QueryMedian
  with st obtain m where "medianRoundTripTime sync False = Inr (m, sync')"
    by (auto simp: DRIFTsync_medianRoundTripTime_def split: sum.splits prod.splits)
  then have "samples sync' = samples sync" by (rule medianRoundTripTime_fields)
  with h show ?thesis by auto
next
  case (QueryAccuracy wait reset timeout rt rc)
  with st have "samples sync' = samples sync"
    by (auto simp: DRIFTsync_accuracy_def Let_def)
  with h show ?thesis by auto
qed

lemma run_samples_history:
  "samples sync = pushes z 10 xs \<Longrightarrow> run sync evs = Inr sync' \<Longrightarrow>
     \<exists>ys. samples sync' = pushes z 10 ys"
proof (induction evs arbitrary: sync xs)
  case Nil
  then show ?case by auto
next
  case (Cons ev evs)
  from Cons.prems obtain s1 where s1: "step sync ev = Inr s1" and r: "run s1 evs = Inr sync'"
    by (auto split: sum.splits)
  from step_samples_history [OF Cons.prems(1) s1] obtain ys where "samples s1 = pushes z 10 ys"
    by blast
  from Cons.IH [OF this r] show ?case .
qed

lemma created_samples_history:
  assumes "run (DRIFTsync_init sc iv ma) evs = Inr sync"
  shows "\<exists>xs. samples sync = pushes \<lparr>local = 0, remote = 0\<rparr> 10 xs"
proof -
  have "samples (DRIFTsync_init sc iv ma) = pushes \<lparr>local = 0, remote = 0\<rparr> 10 []"
    by (simp add: DRIFTsync_init_def pushes_def)
  from run_samples_history [OF this assms] show ?thesis .
qed

subsection \<open>Round trips of a run\<close>

text \<open>
  Every reply that passes the checks has its round trip pushed, whatever the verdict. With
  accuracy measurement off the ingestor never fails, so the ring of round trips after
  a run of well-formed replies is the ring after the pushes of their round trips.
\<close>

lemma receive_update_defined:
  assumes inv: "client_inv sync"
  shows "\<exists>v sync'. receive_update sync recv pkt = Inr (v, sync')
           \<and> roundTripTimes sync' = ring_buffer_push (roundTripTimes sync) (recv - local_pkt pkt)
           \<and> measureAccuracy sync' = measureAccuracy sync"
proof -
  let ?s2 = "push_round_trip sync recv pkt"
  have "client_inv ?s2" using inv by (rule client_inv_push_round_trip)
  then have "ring_inv (roundTripTimes ?s2)" "ring_inv (sortedRoundTripTimes ?s2)"
    by (simp_all add: client_inv_def)
  then obtain m sc where
    med: "medianRoundTripTime ?s2 True = Inr (m, ?s2\<lparr>sortedRoundTripTimes := sc\<rparr>)"
    using medianRoundTripTime_defined by blast
  let ?s3 = "?s2\<lparr>sortedRoundTripTimes := sc\<rparr>"
  let ?rej = "?s3\<lparr>statistics := (statistics ?s3)
                \<lparr>rejectedSamples := rejectedSamples (statistics ?s3) + 1\<rparr>\<rparr>"
  have f: "roundTripTimes ?rej = ring_buffer_push (roundTripTimes sync) (recv - local_pkt pkt)"
    "measureAccuracy ?rej = measureAccuracy sync"
    "roundTripTimes (accept_sample ?s3 pkt)
       = ring_buffer_push (roundTripTimes sync) (recv - local_pkt pkt)"
    "measureAccuracy (accept_sample ?s3 pkt) = measureAccuracy sync"
    by (simp_all add: push_round_trip_def accept_sample_def Let_def)
  have "receive_update sync recv pkt = Inr (Rejected, ?rej)
        \<or> receive_update sync recv pkt = Inr (Accepted, accept_sample ?s3 pkt)"
    by (simp add: receive_update_def med Let_def)
  with f show ?thesis by metis
qed

lemma receive_iteration_valid:
  assumes inv: "client_inv sync" and off: "measureAccuracy sync = 0"
    and v: "valid_reception rx"
  shows "\<exists>sync'. receive_iteration sync rx = Inr sync'
           \<and> roundTripTimes sync' = ring_buffer_push (roundTripTimes sync) (round_trip rx)
           \<and> measureAccuracy sync' = 0"
proof -
  from receive_update_defined [OF inv, of "now rx" "packet rx"] obtain w s' where
    ru: "receive_update sync (now rx) (packet rx) = Inr (w, s')"
    and rt: "roundTripTimes s' = ring_buffer_push (roundTripTimes sync) (round_trip rx)"
    and ma: "measureAccuracy s' = measureAccuracy sync"
    by (auto simp: round_trip_def)
  from v off ru rt ma show ?thesis
    by (cases w) (simp_all add: receive_iteration_def valid_reception_def)
qed

lemma receive_loop_round_trips:
  assumes "client_inv sync" and "measureAccuracy sync = 0"
    and "\<forall>rx \<in> set rxs. valid_reception rx"
  shows "\<exists>sync'. receive_loop sync rxs = Inr sync' \<and> client_inv sync'
           \<and> roundTripTimes sync'
               = foldl ring_buffer_push (roundTripTimes sync) (map round_trip rxs)"
  using assms
proof (induction rxs arbitrary: sync)
  case Nil
  then show ?case by simp
next
  case (Cons rx rxs)
  from Cons.prems have v: "valid_reception rx" by simp
  from receive_iteration_valid [OF Cons.prems(1,2) v] obtain s1 where
    it: "receive_iteration sync rx = Inr s1"
    and rt: "roundTripTimes s1 = ring_buffer_push (roundTripTimes sync) (round_trip rx)"
    and ma: "measureAccuracy s1 = 0"
    by blast
  have inv1: "client_inv s1" using Cons.prems(1) it by (rule client_inv_receive_iteration)
  from Cons.prems have "\<forall>rx \<in> set rxs. valid_reception rx" by simp
  from Cons.IH [OF inv1 ma this] show ?case
    by (simp add: it rt)
qed

lemma median_of_round_trips:
  assumes "client_inv s" and "client_inv t" and "roundTripTimes s = roundTripTimes t"
    and "medianRoundTripTime t l = Inr (m, t')"
  shows "\<exists>s'. medianRoundTripTime s l = Inr (m, s')"
proof -
  from assms(1) have rs: "ring_inv (roundTripTimes s)" and ss: "ring_inv (sortedRoundTripTimes s)"
    by (simp_all add: client_inv_def)
  from assms(2) have rt: "ring_inv (roundTripTimes t)" and st: "ring_inv (sortedRoundTripTimes t)"
    by (simp_all add: client_inv_def)
  from ss st have sz: "size_rb (sortedRoundTripTimes s) = size_rb (sortedRoundTripTimes t)"
    by (simp add: ring_inv_def)
  from medianRoundTripTime_defined [OF rs ss, of l] medianRoundTripTime_defined [OF rt st, of l]
    assms(3,4) sz
  show ?thesis
    by (auto simp: ring_buffer_get_def)
qed

text \<open>
  The client of the theorem on C2 has the ring of round trips that the eleven replies
  \<open>eleven_replies\<close> leave, and the median query returns 104 after them.
\<close>

lemma eleven_replies_median:
  "\<exists>sync sync'. receive_loop fresh_client eleven_replies = Inr sync
      \<and> roundTripTimes sync = roundTripTimes client_eleven_round_trips
      \<and> medianRoundTripTime sync False = Inr (104, sync')"
proof -
  have inv: "client_inv fresh_client" by (simp add: fresh_client_def client_inv_init)
  have off: "measureAccuracy fresh_client = 0"
    by (simp add: fresh_client_def DRIFTsync_init_def)
  have val: "\<forall>rx \<in> set eleven_replies. valid_reception rx"
    by (simp add: eleven_replies_def valid_reception_def valid_reply_def
          DRIFTSYNC_MAGIC_def DRIFTSYNC_FLAG_REPLY_def word_sless_alt)
  have rts: "map round_trip eleven_replies
               = [101, 102, 103, 104, 105, 106, 107, 108, 109, 110, 111]"
    by (simp add: eleven_replies_def round_trip_def valid_reply_def)
  from receive_loop_round_trips [OF inv off val] obtain sync where
    run: "receive_loop fresh_client eleven_replies = Inr sync"
    and inv': "client_inv sync"
    and rt: "roundTripTimes sync = roundTripTimes client_eleven_round_trips"
    by (auto simp: rts client_eleven_round_trips_def pushes_def fresh_client_def
          DRIFTsync_init_def)
  have inv11: "client_inv client_eleven_round_trips"
    using inv inv' rt by (simp add: client_inv_def client_eleven_round_trips_def)
  have "map_sum id fst (medianRoundTripTime client_eleven_round_trips False) = Inr 104"
    by code_simp
  then obtain t' where "medianRoundTripTime client_eleven_round_trips False = Inr (104, t')"
    by (cases "medianRoundTripTime client_eleven_round_trips False") auto
  from median_of_round_trips [OF inv' inv11 rt this] run rt show ?thesis by blast
qed

end
